theory Spec2Isabelle
  imports Complex_Main
begin

section \<open>The OSM element shaper of the lesson 6 exercise\<close>

text \<open>
  The module turns one parsed OpenStreetMap XML element into a Python dictionary.
  The embedding follows \<^verbatim>\<open>shape_element\<close> and its helpers function by function.
  Dictionaries are partial maps, Python exceptions are values of a sum type, and the
  two \<^verbatim>\<open>for\<close> loops are one recursive function over the list that is iterated.
\<close>

subsection \<open>Data model\<close>

text \<open>
  An ElementTree element: its tag, its \<^verbatim>\<open>attrib\<close> dictionary and its child elements.
  The dictionary is kept as the list of its items in iteration order; in a dictionary the
  keys are pairwise distinct, which theorems that depend on it assume as
  \<open>distinct (map fst (attrib e))\<close>. A lookup \<^verbatim>\<open>attrib[name]\<close> is \<open>map_of\<close>.
\<close>

datatype element = Element (tag: string) (attrib: "(string \<times> string) list") (children: "element list")

text \<open>
  The values the shaper stores under a key of the output dictionary: a string, a nested
  dictionary of strings (\<^verbatim>\<open>created\<close>, \<^verbatim>\<open>address\<close>), or a Python list
  (\<^verbatim>\<open>pos\<close>, \<^verbatim>\<open>node_refs\<close>). A Python list is heterogeneous, so its items are
  either floats or strings. The type \<open>'f\<close> stands for Python's float.
\<close>

datatype 'f pyatom = AFloat 'f | AStr string

datatype 'f pyval = PStr string | PDict "string \<rightharpoonup> string" | PList "'f pyatom list"

type_synonym 'f node = "string \<rightharpoonup> 'f pyval"

text \<open>
  The exceptions the code can raise: \<^verbatim>\<open>float(value)\<close> on a non-numeric string
  (ValueError), a missing key of \<^verbatim>\<open>attrib\<close> (KeyError), item assignment into a value
  that is not a dictionary (TypeError), \<^verbatim>\<open>insert\<close>/\<^verbatim>\<open>append\<close> on a value that is not a
  list (AttributeError), and a list index out of range (IndexError).
\<close>

datatype error = ValueError | KeyError | TypeError | AttributeError | IndexError

subsection \<open>Constants and string helpers\<close>

definition CREATED :: "string list" where
  "CREATED = [''version'', ''changeset'', ''timestamp'', ''user'', ''uid'']"

definition POSITION :: "string list" where
  "POSITION = [''lat'', ''lon'']"

text \<open>
  The character class of the regular expression \<^verbatim>\<open>PROBLEM_CHARS\<close>, in the order it is
  written there: \<^verbatim>\<open>= + / & < > ; ' " ? % # $ @ , .\<close> space, tab, CR, LF.
\<close>

definition PROBLEM_CHARS :: "char list" where
  "PROBLEM_CHARS =
     [CHR ''='', CHR ''+'', CHR ''/'', CHR ''&'', CHR ''<'', CHR ''>'', CHR '';'',
      CHR 0x27, CHR 0x22, CHR ''?'', CHR ''%'', CHR ''#'', CHR ''$'', CHR ''@'',
      CHR '','', CHR ''.'', CHR '' '', CHR 0x09, CHR 0x0D, CHR 0x0A]"

text \<open>\<^verbatim>\<open>re.search(PROBLEM_CHARS, string)\<close> is truthy when some character of the string is in the class.\<close>

definition contains_bad_char :: "string \<Rightarrow> bool" where
  "contains_bad_char s = list_ex (\<lambda>c. c \<in> set PROBLEM_CHARS) s"

text \<open>
  \<^verbatim>\<open>string.split(sep)\<close> for a one-character separator: every occurrence splits, and the
  result is never empty (\<^verbatim>\<open>"".split(":") == [""]\<close>, \<^verbatim>\<open>"a:".split(":") == ["a", ""]\<close>).
  A character other than the separator joins the first segment of the rest; the rest has a
  first segment, so the second branch of the \<open>case\<close> is never taken.
\<close>

fun str_split :: "char \<Rightarrow> string \<Rightarrow> string list" where
  "str_split sep [] = [[]]"
| "str_split sep (c # cs) =
     (if c = sep then [] # str_split sep cs
      else (case str_split sep cs of
              w # ws \<Rightarrow> (c # w) # ws
            | [] \<Rightarrow> [[c]]))"

definition startswith :: "string \<Rightarrow> string \<Rightarrow> bool" where
  "startswith s p = (take (length p) s = p)"

definition is_compound_street_address :: "string \<Rightarrow> bool" where
  "is_compound_street_address s =
     (let values = str_split CHR '':'' s
      in length values > 2 \<and> values ! 1 = ''street'')"

subsection \<open>Loops\<close>

text \<open>A \<^verbatim>\<open>for\<close> loop whose body may raise: the first exception ends the loop.\<close>

fun for_each :: "('s \<Rightarrow> 'a \<Rightarrow> error + 's) \<Rightarrow> 's \<Rightarrow> 'a list \<Rightarrow> error + 's" where
  "for_each body s [] = Inr s"
| "for_each body s (x # xs) =
     (case body s x of Inl e \<Rightarrow> Inl e | Inr s' \<Rightarrow> for_each body s' xs)"

text \<open>\<^verbatim>\<open>element.getiterator()\<close>: the element itself and all its descendants, in document order.\<close>

fun getiterator :: "element \<Rightarrow> element list" where
  "getiterator (Element t a cs) = Element t a cs # concat (map getiterator cs)"

subsection \<open>Attributes of the element\<close>

text \<open>
  The body of the loop of \<^verbatim>\<open>transform_element_attributes\<close>. The parameter \<open>flt\<close> is
  Python's \<^verbatim>\<open>float\<close> on strings, \<open>None\<close> where it raises ValueError. In
  \<^verbatim>\<open>node["pos"].insert(0, float(value))\<close> the method is looked up before the argument is
  evaluated, so a \<^verbatim>\<open>pos\<close> that is not a list raises AttributeError first.
\<close>

definition attribute_step :: "(string \<Rightarrow> 'f option) \<Rightarrow> 'f node \<Rightarrow> string \<times> string \<Rightarrow> error + 'f node" where
  "attribute_step flt node av =
     (let attribute = fst av; value = snd av in
      if attribute \<in> set CREATED then
        (let node1 = (if node ''created'' = None then node(''created'' \<mapsto> PDict Map.empty) else node) in
         case node1 ''created'' of
           Some (PDict m) \<Rightarrow> Inr (node1(''created'' \<mapsto> PDict (m(attribute \<mapsto> value))))
         | _ \<Rightarrow> Inl TypeError)
      else if attribute \<in> set POSITION then
        (let node1 = (if node ''pos'' = None then node(''pos'' \<mapsto> PList []) else node) in
         case node1 ''pos'' of
           Some (PList xs) \<Rightarrow>
             (case flt value of
                None \<Rightarrow> Inl ValueError
              | Some x \<Rightarrow>
                  Inr (node1(''pos'' \<mapsto> PList (if attribute = ''lat'' then AFloat x # xs else xs @ [AFloat x]))))
         | _ \<Rightarrow> Inl AttributeError)
      else Inr (node(attribute \<mapsto> PStr value)))"

definition transform_element_attributes :: "(string \<Rightarrow> 'f option) \<Rightarrow> 'f node \<Rightarrow> element \<Rightarrow> error + 'f node" where
  "transform_element_attributes flt node element = for_each (attribute_step flt) node (attrib element)"

subsection \<open>Sub-elements\<close>

definition transform_tag_elem :: "'f node \<Rightarrow> element \<Rightarrow> error + 'f node" where
  "transform_tag_elem node sub_elem =
     (case map_of (attrib sub_elem) ''k'' of
        None \<Rightarrow> Inl KeyError
      | Some k_val \<Rightarrow>
     (case map_of (attrib sub_elem) ''v'' of
        None \<Rightarrow> Inl KeyError
      | Some v_val \<Rightarrow>
          if contains_bad_char k_val \<or> is_compound_street_address k_val then Inr node
          else if startswith k_val ''addr:'' then
            (let node1 = (if node ''address'' = None then node(''address'' \<mapsto> PDict Map.empty) else node);
                 values = str_split CHR '':'' k_val
             in if length values > 1 then
                  (case node1 ''address'' of
                     Some (PDict m) \<Rightarrow> Inr (node1(''address'' \<mapsto> PDict (m(values ! 1 \<mapsto> v_val))))
                   | _ \<Rightarrow> Inl TypeError)
                else Inl IndexError)
          else Inr (node(k_val \<mapsto> PStr v_val))))"

definition transform_nd_tag :: "'f node \<Rightarrow> element \<Rightarrow> error + 'f node" where
  "transform_nd_tag node sub_elm =
     (case map_of (attrib sub_elm) ''ref'' of
        None \<Rightarrow> Inl KeyError
      | Some ref \<Rightarrow>
          (case node ''node_refs'' of
             None \<Rightarrow> Inr (node(''node_refs'' \<mapsto> PList [AStr ref]))
           | Some (PList xs) \<Rightarrow> Inr (node(''node_refs'' \<mapsto> PList (xs @ [AStr ref])))
           | Some _ \<Rightarrow> Inl AttributeError))"

text \<open>The body of the loop of \<^verbatim>\<open>transform_sub_elem_attributes\<close>: its two \<^verbatim>\<open>if\<close>s in sequence.\<close>

definition sub_elem_step :: "'f node \<Rightarrow> element \<Rightarrow> error + 'f node" where
  "sub_elem_step node sub_elm =
     (case (if tag sub_elm = ''tag'' then transform_tag_elem node sub_elm else Inr node) of
        Inl e \<Rightarrow> Inl e
      | Inr node1 \<Rightarrow> if tag sub_elm = ''nd'' then transform_nd_tag node1 sub_elm else Inr node1)"

definition transform_sub_elem_attributes :: "'f node \<Rightarrow> element \<Rightarrow> error + 'f node" where
  "transform_sub_elem_attributes node element = for_each sub_elem_step node (getiterator element)"

subsection \<open>The entry point\<close>

text \<open>\<^verbatim>\<open>shape_element\<close>: \<open>Inr None\<close> is the returned \<^verbatim>\<open>None\<close>, \<open>Inr (Some d)\<close> a returned dictionary.\<close>

definition shape_element :: "(string \<Rightarrow> 'f option) \<Rightarrow> element \<Rightarrow> error + 'f node option" where
  "shape_element flt element =
     (if tag element = ''node'' \<or> tag element = ''way'' then
        (case transform_element_attributes flt [''type'' \<mapsto> PStr (tag element)] element of
           Inl e \<Rightarrow> Inl e
         | Inr node1 \<Rightarrow>
             (case transform_sub_elem_attributes node1 element of
                Inl e \<Rightarrow> Inl e
              | Inr node2 \<Rightarrow> Inr (Some node2)))
      else Inr None)"

subsection \<open>Notions used to state the properties\<close>

text \<open>A field that is absent or holds a nested dictionary; a field that is absent or holds a list.\<close>

fun dict_or_absent :: "'f pyval option \<Rightarrow> bool" where
  "dict_or_absent None = True"
| "dict_or_absent (Some (PDict m)) = True"
| "dict_or_absent (Some _) = False"

fun list_or_absent :: "'f pyval option \<Rightarrow> bool" where
  "list_or_absent None = True"
| "list_or_absent (Some (PList xs)) = True"
| "list_or_absent (Some _) = False"

text \<open>The items of the list stored under \<^verbatim>\<open>pos\<close> and under \<^verbatim>\<open>node_refs\<close>, empty when there is none.\<close>

definition pos_items :: "'f node \<Rightarrow> 'f pyatom list" where
  "pos_items node = (case node ''pos'' of Some (PList xs) \<Rightarrow> xs | _ \<Rightarrow> [])"

definition node_refs_items :: "'f node \<Rightarrow> 'f pyatom list" where
  "node_refs_items node = (case node ''node_refs'' of Some (PList xs) \<Rightarrow> xs | _ \<Rightarrow> [])"

text \<open>The float of the attribute \<open>name\<close> as a list: empty when the attribute is missing.\<close>

definition float_items :: "(string \<Rightarrow> 'f option) \<Rightarrow> (string \<times> string) list \<Rightarrow> string \<Rightarrow> 'f pyatom list" where
  "float_items flt attrs name =
     (case map_of attrs name of
        None \<Rightarrow> []
      | Some v \<Rightarrow> (case flt v of None \<Rightarrow> [] | Some x \<Rightarrow> [AFloat x]))"

text \<open>
  The \<^verbatim>\<open>ref\<close> values of the \<^verbatim>\<open>nd\<close> elements below an element, in document order
  (the order of \<^verbatim>\<open>getiterator\<close>).
\<close>

definition ref_of :: "element \<Rightarrow> string list" where
  "ref_of s =
     (if tag s = ''nd'' then (case map_of (attrib s) ''ref'' of None \<Rightarrow> [] | Some r \<Rightarrow> [r]) else [])"

definition nd_refs :: "element \<Rightarrow> string list" where
  "nd_refs e = concat (map ref_of (getiterator e))"

text \<open>
  A sufficient condition for \<^verbatim>\<open>shape_element\<close> to return a dictionary: every
  \<^verbatim>\<open>lat\<close>/\<^verbatim>\<open>lon\<close> value converts, no attribute has the name of a structured field, every
  \<^verbatim>\<open>tag\<close> element carries \<^verbatim>\<open>k\<close> and \<^verbatim>\<open>v\<close> with a key other than \<^verbatim>\<open>address\<close> and
  \<^verbatim>\<open>node_refs\<close>, and every \<^verbatim>\<open>nd\<close> element carries \<^verbatim>\<open>ref\<close>.
\<close>

definition sub_elem_ok :: "element \<Rightarrow> bool" where
  "sub_elem_ok s =
     ((tag s = ''tag'' \<longrightarrow>
         map_of (attrib s) ''k'' \<notin> {None, Some ''address'', Some ''node_refs''} \<and>
         map_of (attrib s) ''v'' \<noteq> None) \<and>
      (tag s = ''nd'' \<longrightarrow> map_of (attrib s) ''ref'' \<noteq> None))"

definition shapeable :: "(string \<Rightarrow> 'f option) \<Rightarrow> element \<Rightarrow> bool" where
  "shapeable flt e =
     (list_all (\<lambda>av. fst av \<in> set POSITION \<longrightarrow> flt (snd av) \<noteq> None) (attrib e) \<and>
      list_all (\<lambda>av. fst av \<notin> {''created'', ''pos'', ''address'', ''node_refs''}) (attrib e) \<and>
      list_all sub_elem_ok (getiterator e))"

text \<open>The value under a key of the dictionary that \<^verbatim>\<open>shape_element\<close> returned, if it returned one.\<close>

fun returned_field :: "error + 'f node option \<Rightarrow> string \<Rightarrow> 'f pyval option" where
  "returned_field (Inr (Some d)) key = d key"
| "returned_field (Inr None) key = None"
| "returned_field (Inl err) key = None"

text \<open>
  An instance of the conversion for the concrete examples: Python's \<^verbatim>\<open>float\<close> at the
  literals \<^verbatim>\<open>"41.5"\<close> and \<^verbatim>\<open>"-87.25"\<close>, whose values are exact in binary floating point.
  The examples apply it to no other string but \<^verbatim>\<open>"abc"\<close>, which \<^verbatim>\<open>float\<close> rejects.
\<close>

definition float_sample :: "string \<Rightarrow> real option" where
  "float_sample = map_of [(''41.5'', 83 / 2), (''-87.25'', - (349 / 4))]"

text \<open>
  Two elements in the style of the examples of the module's docstring: a way with two
  \<^verbatim>\<open>nd\<close> children and a tag, and a node with a position, a \<^verbatim>\<open>created\<close> attribute and
  address tags, one of them a compound street address.
\<close>

definition way_example :: element where
  "way_example =
     Element ''way'' [(''id'', ''4'')]
       [Element ''nd'' [(''ref'', ''305896090'')] [],
        Element ''nd'' [(''ref'', ''1719825889'')] [],
        Element ''tag'' [(''k'', ''highway''), (''v'', ''service'')] []]"

definition node_example :: element where
  "node_example =
     Element ''node'' [(''lon'', ''-87.25''), (''lat'', ''41.5''), (''id'', ''261114295''), (''uid'', ''451048'')]
       [Element ''tag'' [(''k'', ''addr:housenumber''), (''v'', ''5158'')] [],
        Element ''tag'' [(''k'', ''addr:street:name''), (''v'', ''Lincoln'')] [],
        Element ''tag'' [(''k'', ''amenity''), (''v'', ''pharmacy'')] []]"

section \<open>Properties\<close>

subsection \<open>Strings\<close>

lemma str_split_not_Nil: "str_split sep s \<noteq> []"
  by (induction s) (auto split: list.splits)

lemma str_split_append_sep:
  "sep \<notin> set p \<Longrightarrow> str_split sep (p @ sep # r) = p # str_split sep r"
  by (induction p) (auto split: list.splits)

lemma startswith_append: "startswith s p \<longleftrightarrow> (\<exists>r. s = p @ r)"
  unfolding startswith_def
  by (metis append_eq_conv_conj append_take_drop_id)

lemma addr_split:
  assumes "startswith k ''addr:''"
  shows "\<exists>r. k = ''addr:'' @ r \<and> str_split CHR '':'' k = ''addr'' # str_split CHR '':'' r"
proof -
  from assms obtain r where r: "k = ''addr:'' @ r"
    by (auto simp: startswith_append)
  have "str_split CHR '':'' (''addr'' @ CHR '':'' # r) = ''addr'' # str_split CHR '':'' r"
    by (rule str_split_append_sep) simp
  with r show ?thesis by simp
qed

lemma addr_split_length: "startswith k ''addr:'' \<Longrightarrow> 1 < length (str_split CHR '':'' k)"
  using addr_split [of k] str_split_not_Nil [of "CHR '':''"]
  by (auto simp: Suc_less_eq2 neq_Nil_conv)

subsection \<open>Loops\<close>

lemma for_each_append:
  "for_each body s (xs @ ys) =
     (case for_each body s xs of Inl e \<Rightarrow> Inl e | Inr s' \<Rightarrow> for_each body s' ys)"
  by (induction xs arbitrary: s) (auto split: sum.splits)

lemma dict_or_absent_iff: "dict_or_absent x \<longleftrightarrow> x = None \<or> (\<exists>m. x = Some (PDict m))"
  by (cases x rule: dict_or_absent.cases) auto

lemma list_or_absent_iff: "list_or_absent x \<longleftrightarrow> x = None \<or> (\<exists>xs. x = Some (PList xs))"
  by (cases x rule: list_or_absent.cases) auto

subsection \<open>One attribute\<close>

lemma POSITION_not_CREATED: "a \<in> set POSITION \<Longrightarrow> a \<notin> set CREATED"
  by (auto simp: POSITION_def CREATED_def)

lemma attribute_step_created:
  assumes "a \<in> set CREATED" and "dict_or_absent (node ''created'')"
  shows "attribute_step flt node (a, v) =
           Inr (node(''created'' \<mapsto>
             PDict ((case node ''created'' of Some (PDict m) \<Rightarrow> m | _ \<Rightarrow> Map.empty)(a \<mapsto> v))))"
proof -
  from assms(2) consider "node ''created'' = None" | m where "node ''created'' = Some (PDict m)"
    by (auto simp: dict_or_absent_iff)
  then show ?thesis
  proof cases
    case 1
    with assms(1) show ?thesis by (simp add: attribute_step_def)
  next
    case 2
    with assms(1) show ?thesis by (simp add: attribute_step_def)
  qed
qed

lemma attribute_step_position:
  assumes "a \<in> set POSITION" and "list_or_absent (node ''pos'')"
  shows "attribute_step flt node (a, v) =
           (case flt v of
              None \<Rightarrow> Inl ValueError
            | Some x \<Rightarrow>
                Inr (node(''pos'' \<mapsto> PList
                  (if a = ''lat''
                   then AFloat x # (case node ''pos'' of Some (PList xs) \<Rightarrow> xs | _ \<Rightarrow> [])
                   else (case node ''pos'' of Some (PList xs) \<Rightarrow> xs | _ \<Rightarrow> []) @ [AFloat x]))))"
proof -
  have nc: "a \<notin> set CREATED" using assms(1) by (rule POSITION_not_CREATED)
  from assms(2) consider "node ''pos'' = None" | xs where "node ''pos'' = Some (PList xs)"
    by (auto simp: list_or_absent_iff)
  then show ?thesis
  proof cases
    case 1
    with assms(1) nc show ?thesis by (simp add: attribute_step_def split: option.splits)
  next
    case 2
    with assms(1) nc show ?thesis by (simp add: attribute_step_def split: option.splits)
  qed
qed

lemma attribute_step_plain:
  "a \<notin> set CREATED \<Longrightarrow> a \<notin> set POSITION \<Longrightarrow>
   attribute_step flt node (a, v) = Inr (node(a \<mapsto> PStr v))"
  by (simp add: attribute_step_def)


lemma attribute_step_frame:
  assumes "attribute_step flt node (a, v) = Inr node'"
    and "a \<noteq> K" and "K \<noteq> ''created''" and "K \<noteq> ''pos''"
  shows "node' K = node K"
proof -
  consider "a \<in> set CREATED" | "a \<notin> set CREATED" "a \<in> set POSITION"
    | "a \<notin> set CREATED" "a \<notin> set POSITION"
    by blast
  then show ?thesis
  proof cases
    case 1
    with assms show ?thesis
      by (auto simp: attribute_step_def Let_def split: if_splits option.splits pyval.splits)
  next
    case 2
    with assms show ?thesis
      by (auto simp: attribute_step_def Let_def split: if_splits option.splits pyval.splits)
  next
    case 3
    with assms show ?thesis by (auto simp: attribute_step_plain)
  qed
qed

lemma attribute_step_frame_pos:
  assumes "attribute_step flt node (a, v) = Inr node'"
    and "a \<notin> set POSITION" and "a \<noteq> ''pos''"
  shows "node' ''pos'' = node ''pos''"
proof (cases "a \<in> set CREATED")
  case True
  with assms show ?thesis
    by (auto simp: attribute_step_def Let_def split: if_splits option.splits pyval.splits)
next
  case False
  with assms show ?thesis by (auto simp: attribute_step_plain)
qed

lemma attribute_step_typed:
  assumes "dict_or_absent (node ''created'')" and "list_or_absent (node ''pos'')"
    and "a \<noteq> ''created''" and "a \<noteq> ''pos''"
  shows "(a \<in> set POSITION \<and> flt v = None \<longrightarrow> attribute_step flt node (a, v) = Inl ValueError) \<and>
         (\<not> (a \<in> set POSITION \<and> flt v = None) \<longrightarrow>
            (\<exists>node'. attribute_step flt node (a, v) = Inr node' \<and>
               dict_or_absent (node' ''created'') \<and> list_or_absent (node' ''pos'')))"
proof -
  consider "a \<in> set CREATED" | "a \<in> set POSITION"
    | "a \<notin> set CREATED" "a \<notin> set POSITION"
    by blast
  then show ?thesis
  proof cases
    case 1
    then have "a \<notin> set POSITION" using POSITION_not_CREATED by blast
    with assms(1,2) 1 show ?thesis by (simp add: attribute_step_created)
  next
    case 2
    with assms(1,2) show ?thesis
      by (cases "flt v") (simp_all add: attribute_step_position)
  next
    case 3
    with assms show ?thesis by (simp add: attribute_step_plain)
  qed
qed

subsection \<open>The attribute loop\<close>

lemma for_each_attribute_frame:
  "for_each (attribute_step flt) node attrs = Inr node' \<Longrightarrow>
   K \<notin> fst ` set attrs \<Longrightarrow> K \<noteq> ''created'' \<Longrightarrow> K \<noteq> ''pos'' \<Longrightarrow> node' K = node K"
proof (induction attrs arbitrary: node)
  case Nil
  then show ?case by simp
next
  case (Cons av attrs)
  obtain a v where av: "av = (a, v)" by (cases av)
  from Cons.prems(1) obtain node1 where
    step: "attribute_step flt node (a, v) = Inr node1" and
    rest: "for_each (attribute_step flt) node1 attrs = Inr node'"
    by (auto simp: av split: sum.splits)
  from Cons.prems(2) have "a \<noteq> K" and "K \<notin> fst ` set attrs"
    by (auto simp: av)
  with Cons.IH [OF rest] attribute_step_frame [OF step] Cons.prems(3,4) show ?case by simp
qed

lemma for_each_attribute_pos:
  "for_each (attribute_step flt) node attrs = Inr node' \<Longrightarrow>
   distinct (map fst attrs) \<Longrightarrow> ''pos'' \<notin> fst ` set attrs \<Longrightarrow>
   list_or_absent (node ''pos'') \<Longrightarrow>
   node' ''pos'' =
     (if map_of attrs ''lat'' = None \<and> map_of attrs ''lon'' = None then node ''pos''
      else Some (PList (float_items flt attrs ''lat'' @ pos_items node @ float_items flt attrs ''lon'')))"
proof (induction attrs arbitrary: node)
  case Nil
  then show ?case by simp
next
  case (Cons av attrs)
  obtain a v where av: "av = (a, v)" by (cases av)
  from Cons.prems(1) obtain node1 where
    step: "attribute_step flt node (a, v) = Inr node1" and
    rest: "for_each (attribute_step flt) node1 attrs = Inr node'"
    by (auto simp: av split: sum.splits)
  from Cons.prems(2,3) have d: "distinct (map fst attrs)" "''pos'' \<notin> fst ` set attrs"
    and a: "a \<notin> fst ` set attrs" "a \<noteq> ''pos''"
    by (auto simp: av)
  from a(1) have ma: "map_of attrs a = None"
    by (simp add: map_of_eq_None_iff)
  show ?case
  proof (cases "a \<in> set POSITION")
    case False
    then have na: "a \<noteq> ''lat''" "a \<noteq> ''lon''" by (auto simp: POSITION_def)
    from attribute_step_frame_pos [OF step False a(2)] have same: "node1 ''pos'' = node ''pos''" .
    then have "list_or_absent (node1 ''pos'')"
      using Cons.prems(4) by simp
    from Cons.IH [OF rest d this] same na show ?thesis
      by (simp add: av float_items_def pos_items_def)
  next
    case True
    from step Cons.prems(4) obtain x where
      x: "flt v = Some x" and
      n1: "node1 ''pos'' = Some (PList (if a = ''lat'' then AFloat x # pos_items node else pos_items node @ [AFloat x]))"
      by (auto simp: attribute_step_position [OF True] pos_items_def split: option.splits)
    then have "list_or_absent (node1 ''pos'')" by simp
    note ih = Cons.IH [OF rest d this]
    from True consider "a = ''lat''" | "a = ''lon''" by (auto simp: POSITION_def)
    then show ?thesis
    proof cases
      case 1
      with ma have "map_of attrs ''lat'' = None" by simp
      with ih n1 x 1 show ?thesis
        by (simp add: av float_items_def pos_items_def)
    next
      case 2
      with ma have "map_of attrs ''lon'' = None" by simp
      with ih n1 x 2 show ?thesis
        by (simp add: av float_items_def pos_items_def)
    qed
  qed
qed

lemma attribute_loop_typed:
  "dict_or_absent (node ''created'') \<Longrightarrow> list_or_absent (node ''pos'') \<Longrightarrow>
   ''created'' \<notin> fst ` set attrs \<Longrightarrow> ''pos'' \<notin> fst ` set attrs \<Longrightarrow>
   (if \<exists>av \<in> set attrs. fst av \<in> set POSITION \<and> flt (snd av) = None
    then for_each (attribute_step flt) node attrs = Inl ValueError
    else \<exists>node'. for_each (attribute_step flt) node attrs = Inr node')"
proof (induction attrs arbitrary: node)
  case Nil
  then show ?case by simp
next
  case (Cons av attrs)
  obtain a v where av: "av = (a, v)" by (cases av)
  from Cons.prems(3,4) have a: "a \<noteq> ''created''" "a \<noteq> ''pos''"
    and rest: "''created'' \<notin> fst ` set attrs" "''pos'' \<notin> fst ` set attrs"
    by (auto simp: av)
  note step = attribute_step_typed [OF Cons.prems(1,2) a, of flt v]
  show ?case
  proof (cases "a \<in> set POSITION \<and> flt v = None")
    case True
    with step show ?thesis by (simp add: av)
  next
    case False
    with step obtain node1 where
      n1: "attribute_step flt node (a, v) = Inr node1"
        "dict_or_absent (node1 ''created'')" "list_or_absent (node1 ''pos'')"
      by blast
    from False have "(\<exists>av \<in> set (av # attrs). fst av \<in> set POSITION \<and> flt (snd av) = None) \<longleftrightarrow>
        (\<exists>av \<in> set attrs. fst av \<in> set POSITION \<and> flt (snd av) = None)"
      by (auto simp: av)
    with Cons.IH [OF n1(2,3) rest] n1(1) show ?thesis
      by (simp add: av del: set_simps)
  qed
qed

lemma attribute_step_rejects:
  assumes "a \<in> set POSITION" and "flt v = None"
  shows "\<exists>err. attribute_step flt node (a, v) = Inl err"
proof -
  have nc: "a \<notin> set CREATED" using assms(1) by (rule POSITION_not_CREATED)
  show ?thesis
  proof (cases "list_or_absent (node ''pos'')")
    case True
    with assms show ?thesis by (simp add: attribute_step_position)
  next
    case False
    then obtain w where w: "node ''pos'' = Some w" "\<forall>xs. w \<noteq> PList xs"
      by (auto simp: list_or_absent_iff)
    with assms(1) nc show ?thesis
      by (cases w) (simp_all add: attribute_step_def)
  qed
qed

lemma attribute_loop_fails:
  "(a, v) \<in> set attrs \<Longrightarrow> a \<in> set POSITION \<Longrightarrow> flt v = None \<Longrightarrow>
   \<exists>err. for_each (attribute_step flt) node attrs = Inl err"
proof (induction attrs arbitrary: node)
  case Nil
  then show ?case by simp
next
  case (Cons av attrs)
  show ?case
  proof (cases "attribute_step flt node av")
    case (Inl err)
    then show ?thesis by simp
  next
    case (Inr node1)
    have "av \<noteq> (a, v)"
      using Inr Cons.prems(2,3) attribute_step_rejects [of a flt v node] by auto
    with Cons.prems(1) have "(a, v) \<in> set attrs" by auto
    from Cons.IH [OF this Cons.prems(2,3)] Inr show ?thesis by simp
  qed
qed

subsection \<open>Sub-elements\<close>

lemma transform_tag_elem_frame:
  "transform_tag_elem node s = Inr node' \<Longrightarrow>
   map_of (attrib s) ''k'' \<noteq> Some K \<Longrightarrow> K \<noteq> ''address'' \<Longrightarrow> node' K = node K"
  by (auto simp: transform_tag_elem_def Let_def
           split: if_splits option.splits pyval.splits)

lemma transform_nd_tag_frame:
  "transform_nd_tag node s = Inr node' \<Longrightarrow> K \<noteq> ''node_refs'' \<Longrightarrow> node' K = node K"
  by (auto simp: transform_nd_tag_def split: option.splits pyval.splits)

lemma sub_elem_step_frame:
  "sub_elem_step node s = Inr node' \<Longrightarrow>
   tag s = ''tag'' \<longrightarrow> map_of (attrib s) ''k'' \<noteq> Some K \<Longrightarrow>
   K \<noteq> ''address'' \<Longrightarrow> K \<noteq> ''node_refs'' \<Longrightarrow> node' K = node K"
  by (auto simp: sub_elem_step_def split: if_splits sum.splits
           dest: transform_tag_elem_frame transform_nd_tag_frame)

lemma for_each_sub_elem_frame:
  "for_each sub_elem_step node subs = Inr node' \<Longrightarrow>
   \<forall>s \<in> set subs. tag s = ''tag'' \<longrightarrow> map_of (attrib s) ''k'' \<noteq> Some K \<Longrightarrow>
   K \<noteq> ''address'' \<Longrightarrow> K \<noteq> ''node_refs'' \<Longrightarrow> node' K = node K"
proof (induction subs arbitrary: node)
  case Nil
  then show ?case by simp
next
  case (Cons s subs)
  from Cons.prems(1) obtain node1 where
    step: "sub_elem_step node s = Inr node1" and
    rest: "for_each sub_elem_step node1 subs = Inr node'"
    by (auto split: sum.splits)
  from Cons.prems(2) have "tag s = ''tag'' \<longrightarrow> map_of (attrib s) ''k'' \<noteq> Some K"
    and "\<forall>s \<in> set subs. tag s = ''tag'' \<longrightarrow> map_of (attrib s) ''k'' \<noteq> Some K"
    by auto
  with Cons.IH [OF rest] sub_elem_step_frame [OF step] Cons.prems(3,4) show ?case by simp
qed

lemma sub_elem_step_node_refs:
  assumes "sub_elem_step node s = Inr node'"
    and "tag s = ''tag'' \<longrightarrow> map_of (attrib s) ''k'' \<noteq> Some ''node_refs''"
    and "list_or_absent (node ''node_refs'')"
  shows "node' ''node_refs'' =
           (if ref_of s = [] then node ''node_refs''
            else Some (PList (node_refs_items node @ map AStr (ref_of s))))"
proof (cases "tag s = ''nd''")
  case True
  with assms(1) have "transform_nd_tag node s = Inr node'"
    by (simp add: sub_elem_step_def)
  with assms(3) True show ?thesis
    by (auto simp: transform_nd_tag_def ref_of_def node_refs_items_def
             split: option.splits pyval.splits)
next
  case False
  then have "ref_of s = []" by (simp add: ref_of_def)
  moreover have "node' ''node_refs'' = node ''node_refs''"
  proof (cases "tag s = ''tag''")
    case True
    with assms(1) False have "transform_tag_elem node s = Inr node'"
      by (simp add: sub_elem_step_def split: sum.splits)
    from transform_tag_elem_frame [OF this] assms(2) True show ?thesis by simp
  next
    case False
    with assms(1) \<open>tag s \<noteq> ''nd''\<close> show ?thesis by (simp add: sub_elem_step_def)
  qed
  ultimately show ?thesis by simp
qed

lemma for_each_sub_elem_node_refs:
  "for_each sub_elem_step node subs = Inr node' \<Longrightarrow>
   \<forall>s \<in> set subs. tag s = ''tag'' \<longrightarrow> map_of (attrib s) ''k'' \<noteq> Some ''node_refs'' \<Longrightarrow>
   list_or_absent (node ''node_refs'') \<Longrightarrow>
   node' ''node_refs'' =
     (if concat (map ref_of subs) = [] then node ''node_refs''
      else Some (PList (node_refs_items node @ map AStr (concat (map ref_of subs)))))"
proof (induction subs arbitrary: node)
  case Nil
  then show ?case by simp
next
  case (Cons s subs)
  from Cons.prems(1) obtain node1 where
    step: "sub_elem_step node s = Inr node1" and
    rest: "for_each sub_elem_step node1 subs = Inr node'"
    by (auto split: sum.splits)
  from Cons.prems(2) have k: "tag s = ''tag'' \<longrightarrow> map_of (attrib s) ''k'' \<noteq> Some ''node_refs''"
    and ks: "\<forall>s \<in> set subs. tag s = ''tag'' \<longrightarrow> map_of (attrib s) ''k'' \<noteq> Some ''node_refs''"
    by auto
  note n1 = sub_elem_step_node_refs [OF step k Cons.prems(3)]
  then have "list_or_absent (node1 ''node_refs'')"
    using Cons.prems(3) by (auto split: if_splits)
  from Cons.IH [OF rest ks this] n1 show ?case
    by (auto simp: node_refs_items_def)
qed


lemma sub_elem_step_typed:
  assumes "sub_elem_ok s"
    and "dict_or_absent (node ''address'')" and "list_or_absent (node ''node_refs'')"
  shows "\<exists>node'. sub_elem_step node s = Inr node' \<and>
           dict_or_absent (node' ''address'') \<and> list_or_absent (node' ''node_refs'')"
proof -
  consider "tag s = ''tag''" | "tag s = ''nd''" | "tag s \<noteq> ''tag''" "tag s \<noteq> ''nd''"
    by blast
  then show ?thesis
  proof cases
    case 1
    with assms(1) obtain k v where
      kv: "map_of (attrib s) ''k'' = Some k" "map_of (attrib s) ''v'' = Some v"
        "k \<noteq> ''address''" "k \<noteq> ''node_refs''"
      by (auto simp: sub_elem_ok_def)
    have len: "startswith k ''addr:'' \<Longrightarrow> 1 < length (str_split CHR '':'' k)"
      by (rule addr_split_length)
    from 1 have step: "sub_elem_step node s = transform_tag_elem node s"
      by (simp add: sub_elem_step_def split: sum.splits)
    from kv len assms(2,3) show ?thesis
      unfolding step
      by (auto simp: transform_tag_elem_def Let_def dict_or_absent_iff)
  next
    case 2
    with assms(1) obtain r where "map_of (attrib s) ''ref'' = Some r"
      by (auto simp: sub_elem_ok_def)
    with 2 assms(2,3) show ?thesis
      by (auto simp: sub_elem_step_def transform_nd_tag_def list_or_absent_iff)
  next
    case 3
    with assms(2,3) show ?thesis by (simp add: sub_elem_step_def)
  qed
qed

lemma sub_elem_loop_typed:
  "list_all sub_elem_ok subs \<Longrightarrow>
   dict_or_absent (node ''address'') \<Longrightarrow> list_or_absent (node ''node_refs'') \<Longrightarrow>
   \<exists>node'. for_each sub_elem_step node subs = Inr node'"
proof (induction subs arbitrary: node)
  case Nil
  then show ?case by simp
next
  case (Cons s subs)
  from Cons.prems(1) have "sub_elem_ok s" and rest: "list_all sub_elem_ok subs" by auto
  from sub_elem_step_typed [OF this(1) Cons.prems(2,3)] obtain node1 where
    n1: "sub_elem_step node s = Inr node1"
      "dict_or_absent (node1 ''address'')" "list_or_absent (node1 ''node_refs'')"
    by blast
  from Cons.IH [OF rest n1(2,3)] n1(1) show ?case by simp
qed

subsection \<open>Running the examples\<close>

lemmas run_defs = shape_element_def transform_element_attributes_def attribute_step_def
  CREATED_def POSITION_def transform_nd_tag_def float_sample_def
  transform_sub_elem_attributes_def sub_elem_step_def transform_tag_elem_def

lemmas key_defs = contains_bad_char_def PROBLEM_CHARS_def is_compound_street_address_def
  startswith_def

lemma example_keys:
  "\<not> contains_bad_char ''highway''"
  "\<not> contains_bad_char ''amenity''"
  "\<not> contains_bad_char ''addr:housenumber''"
  "\<not> contains_bad_char ''addr:street:name''"
  "\<not> is_compound_street_address ''highway''"
  "\<not> is_compound_street_address ''amenity''"
  "\<not> is_compound_street_address ''addr:housenumber''"
  "is_compound_street_address ''addr:street:name''"
  "\<not> startswith ''highway'' ''addr:''"
  "\<not> startswith ''amenity'' ''addr:''"
  "startswith ''addr:housenumber'' ''addr:''"
  "str_split CHR '':'' ''addr:housenumber'' = [''addr'', ''housenumber'']"
  by (simp_all add: key_defs)

lemma way_example_shaped:
  "shape_element float_sample way_example =
     Inr (Some [''type'' \<mapsto> PStr ''way'', ''id'' \<mapsto> PStr ''4'',
                ''node_refs'' \<mapsto> PList [AStr ''305896090'', AStr ''1719825889''],
                ''highway'' \<mapsto> PStr ''service''])"
  by (simp add: way_example_def run_defs example_keys)

lemma node_example_shaped:
  "shape_element float_sample node_example =
     Inr (Some [''type'' \<mapsto> PStr ''node'',
                ''pos'' \<mapsto> PList [AFloat (83 / 2), AFloat (- (349 / 4))],
                ''id'' \<mapsto> PStr ''261114295'',
                ''created'' \<mapsto> PDict [''uid'' \<mapsto> ''451048''],
                ''address'' \<mapsto> PDict [''housenumber'' \<mapsto> ''5158''],
                ''amenity'' \<mapsto> PStr ''pharmacy''])"
  by (simp add: node_example_def run_defs example_keys)

lemma float_sample_values:
  "float_sample ''41.5'' = Some (83 / 2)"
  "float_sample ''-87.25'' = Some (- (349 / 4))"
  "float_sample ''abc'' = None"
  by (simp_all add: float_sample_def)

subsection \<open>The entry point\<close>

lemma shapeable_returns:
  assumes "tag e = ''node'' \<or> tag e = ''way''" and "shapeable flt e"
  shows "\<exists>d. shape_element flt e = Inr (Some d)"
proof -
  let ?node0 = "[''type'' \<mapsto> PStr (tag e)] :: 'a node"
  from assms(2) have
    pos: "\<not> (\<exists>av \<in> set (attrib e). fst av \<in> set POSITION \<and> flt (snd av) = None)" and
    keys: "''created'' \<notin> fst ` set (attrib e)" "''pos'' \<notin> fst ` set (attrib e)"
      "''address'' \<notin> fst ` set (attrib e)" "''node_refs'' \<notin> fst ` set (attrib e)" and
    subs: "list_all sub_elem_ok (getiterator e)"
    by (auto simp: shapeable_def list_all_iff)
  have "dict_or_absent (?node0 ''created'')" and "list_or_absent (?node0 ''pos'')"
    by simp_all
  from attribute_loop_typed [OF this keys(1,2), of flt] pos obtain node1 where
    a: "for_each (attribute_step flt) ?node0 (attrib e) = Inr node1"
    by auto
  from for_each_attribute_frame [OF a keys(3)] have "node1 ''address'' = None" by simp
  moreover from for_each_attribute_frame [OF a keys(4)] have "node1 ''node_refs'' = None" by simp
  ultimately have "dict_or_absent (node1 ''address'')" and "list_or_absent (node1 ''node_refs'')"
    by simp_all
  from sub_elem_loop_typed [OF subs this] obtain d where
    "for_each sub_elem_step node1 (getiterator e) = Inr d"
    by blast
  with a assms(1) show ?thesis
    by (auto simp: shape_element_def transform_element_attributes_def
                   transform_sub_elem_attributes_def)
qed

lemma shape_element_Some:
  assumes "shape_element flt e = Inr (Some d)"
  obtains node1 where "tag e = ''node'' \<or> tag e = ''way''"
    and "for_each (attribute_step flt) [''type'' \<mapsto> PStr (tag e)] (attrib e) = Inr node1"
    and "for_each sub_elem_step node1 (getiterator e) = Inr d"
  using assms
  by (auto simp: shape_element_def transform_element_attributes_def
                 transform_sub_elem_attributes_def split: if_splits sum.splits)

section \<open>The claims\<close>

subsection \<open>The type field\<close>

text \<open>
  C6, as amended. For an accepted element that has no attribute named \<^verbatim>\<open>type\<close> and no
  \<^verbatim>\<open>tag\<close> sub-element whose key is \<^verbatim>\<open>type\<close>, the \<^verbatim>\<open>type\<close> field of the returned
  dictionary is the element's tag name.
\<close>

theorem type_is_tag_name:
  assumes "shape_element flt e = Inr (Some d)"
    and "''type'' \<notin> fst ` set (attrib e)"
    and "\<forall>s \<in> set (getiterator e). tag s = ''tag'' \<longrightarrow> map_of (attrib s) ''k'' \<noteq> Some ''type''"
  shows "d ''type'' = Some (PStr (tag e))"
proof -
  from assms(1) obtain node1 where
    a: "for_each (attribute_step flt) [''type'' \<mapsto> PStr (tag e)] (attrib e) = Inr node1" and
    s: "for_each sub_elem_step node1 (getiterator e) = Inr d"
    by (rule shape_element_Some)
  from for_each_attribute_frame [OF a assms(2)] have "node1 ''type'' = Some (PStr (tag e))"
    by simp
  moreover from for_each_sub_elem_frame [OF s assms(3)] have "d ''type'' = node1 ''type''"
    by simp
  ultimately show ?thesis by simp
qed

theorem type_is_tag_name_witness:
  "shape_element float_sample way_example =
     Inr (Some [''type'' \<mapsto> PStr ''way'', ''id'' \<mapsto> PStr ''4'',
                ''node_refs'' \<mapsto> PList [AStr ''305896090'', AStr ''1719825889''],
                ''highway'' \<mapsto> PStr ''service''])
   \<and> ''type'' \<notin> fst ` set (attrib way_example)
   \<and> list_all (\<lambda>s. tag s = ''tag'' \<longrightarrow> map_of (attrib s) ''k'' \<noteq> Some ''type'')
        (getiterator way_example)
   \<and> ([''type'' \<mapsto> PStr ''way'', ''id'' \<mapsto> PStr ''4'',
        ''node_refs'' \<mapsto> PList [AStr ''305896090'', AStr ''1719825889''],
        ''highway'' \<mapsto> PStr ''service''] :: real node) ''type'' = Some (PStr (tag way_example))"
proof -
  note run = way_example_shaped
  have h1: "''type'' \<notin> fst ` set (attrib way_example)"
    by (simp add: way_example_def)
  have h2: "\<forall>s \<in> set (getiterator way_example).
              tag s = ''tag'' \<longrightarrow> map_of (attrib s) ''k'' \<noteq> Some ''type''"
    by (simp add: way_example_def)
  from type_is_tag_name [OF run h1 h2] run h1 h2 show ?thesis
    unfolding list_all_iff by blast
qed

text \<open>
  C6 as stated fails: a \<^verbatim>\<open>tag\<close> child with the key \<^verbatim>\<open>type\<close> is stored by
  \<^verbatim>\<open>node[k_val] = v_val\<close> and replaces the tag name.
\<close>

theorem type_overwritten_by_tag_child:
  "returned_field
     (shape_element float_sample
        (Element ''way'' [] [Element ''tag'' [(''k'', ''type''), (''v'', ''multipolygon'')] []]))
     ''type'' = Some (PStr ''multipolygon'')"
  by (simp add: run_defs key_defs)

subsection \<open>Acceptance and failure\<close>

text \<open>
  C1, as amended. An element whose tag is neither \<^verbatim>\<open>node\<close> nor \<^verbatim>\<open>way\<close> is answered
  with \<^verbatim>\<open>None\<close>. An element whose tag is \<^verbatim>\<open>node\<close> or \<^verbatim>\<open>way\<close> is never answered with
  \<^verbatim>\<open>None\<close>: the call returns a dictionary or raises, and it returns a dictionary whenever
  the element is \<open>shapeable\<close>.
\<close>

theorem shape_element_null_iff_not_accepted:
  "(tag e \<noteq> ''node'' \<and> tag e \<noteq> ''way'' \<longrightarrow> shape_element flt e = Inr None) \<and>
   (tag e = ''node'' \<or> tag e = ''way'' \<longrightarrow>
      shape_element flt e \<noteq> Inr None \<and>
      (shapeable flt e \<longrightarrow> (\<exists>d. shape_element flt e = Inr (Some d))))"
proof (intro conjI impI)
  assume "tag e \<noteq> ''node'' \<and> tag e \<noteq> ''way''"
  then show "shape_element flt e = Inr None" by (simp add: shape_element_def)
next
  assume "tag e = ''node'' \<or> tag e = ''way''"
  then show "shape_element flt e \<noteq> Inr None"
    by (auto simp: shape_element_def split: sum.splits)
next
  assume "tag e = ''node'' \<or> tag e = ''way''" and "shapeable flt e"
  then show "\<exists>d. shape_element flt e = Inr (Some d)" by (rule shapeable_returns)
qed

theorem shape_element_null_iff_not_accepted_witness:
  "tag (Element ''relation'' [(''id'', ''9'')] []) \<noteq> ''node''
   \<and> tag (Element ''relation'' [(''id'', ''9'')] []) \<noteq> ''way''
   \<and> shape_element float_sample (Element ''relation'' [(''id'', ''9'')] []) = Inr None
   \<and> tag node_example = ''node''
   \<and> shapeable float_sample node_example
   \<and> shape_element float_sample node_example \<noteq> Inr None
   \<and> (\<exists>d. shape_element float_sample node_example = Inr (Some d))"
proof -
  have r: "tag (Element ''relation'' [(''id'', ''9'')] []) \<noteq> ''node''
      \<and> tag (Element ''relation'' [(''id'', ''9'')] []) \<noteq> ''way''"
    by simp
  have n: "tag node_example = ''node''" by (simp add: node_example_def)
  have s: "shapeable float_sample node_example"
    by (simp add: shapeable_def sub_elem_ok_def node_example_def POSITION_def float_sample_values
             del: not_None_eq)
  from shape_element_null_iff_not_accepted [of "Element ''relation'' [(''id'', ''9'')] []" float_sample]
    shape_element_null_iff_not_accepted [of node_example float_sample] r n s
  show ?thesis by blast
qed

text \<open>
  C1 as stated fails: for a node whose \<^verbatim>\<open>lat\<close> is not numeric the call raises ValueError
  and returns no dictionary.
\<close>

theorem non_numeric_lat_returns_no_document:
  "shape_element float_sample (Element ''node'' [(''id'', ''1''), (''lat'', ''abc'')] []) = Inl ValueError"
  by (simp add: run_defs)

text \<open>
  C9, as amended. An accepted element with a \<^verbatim>\<open>lat\<close> or \<^verbatim>\<open>lon\<close> attribute whose value
  does not convert makes \<^verbatim>\<open>shape_element\<close> raise, so no dictionary is returned. The
  exception is the ValueError of \<^verbatim>\<open>float\<close> when no attribute is named \<^verbatim>\<open>created\<close> or
  \<^verbatim>\<open>pos\<close>.
\<close>

theorem non_numeric_position_fails:
  assumes "tag e = ''node'' \<or> tag e = ''way''"
    and "(a, v) \<in> set (attrib e)" and "a = ''lat'' \<or> a = ''lon''" and "flt v = None"
  shows "(\<exists>err. shape_element flt e = Inl err) \<and>
         (''created'' \<notin> fst ` set (attrib e) \<and> ''pos'' \<notin> fst ` set (attrib e) \<longrightarrow>
            shape_element flt e = Inl ValueError)"
proof -
  let ?node0 = "[''type'' \<mapsto> PStr (tag e)] :: 'a node"
  from assms(3) have p: "a \<in> set POSITION" by (auto simp: POSITION_def)
  from attribute_loop_fails [of a v "attrib e" flt ?node0] assms(2,4) p obtain err where
    "for_each (attribute_step flt) ?node0 (attrib e) = Inl err"
    by blast
  with assms(1) have 1: "\<exists>err. shape_element flt e = Inl err"
    by (auto simp: shape_element_def transform_element_attributes_def)
  have 2: "shape_element flt e = Inl ValueError"
    if keys: "''created'' \<notin> fst ` set (attrib e)" "''pos'' \<notin> fst ` set (attrib e)"
  proof -
    have "dict_or_absent (?node0 ''created'')" and "list_or_absent (?node0 ''pos'')"
      by simp_all
    note loop = attribute_loop_typed [OF this keys, of flt]
    have "\<exists>av \<in> set (attrib e). fst av \<in> set POSITION \<and> flt (snd av) = None"
      using assms(2,4) p by force
    with loop have "for_each (attribute_step flt) ?node0 (attrib e) = Inl ValueError"
      by simp
    with assms(1) show ?thesis
      by (auto simp: shape_element_def transform_element_attributes_def)
  qed
  from 1 2 show ?thesis by blast
qed

theorem non_numeric_position_fails_witness:
  "tag (Element ''way'' [(''id'', ''1''), (''lon'', ''abc'')] []) = ''way''
   \<and> (''lon'', ''abc'') \<in> set (attrib (Element ''way'' [(''id'', ''1''), (''lon'', ''abc'')] []))
   \<and> float_sample ''abc'' = None
   \<and> ''created'' \<notin> fst ` set (attrib (Element ''way'' [(''id'', ''1''), (''lon'', ''abc'')] []))
   \<and> ''pos'' \<notin> fst ` set (attrib (Element ''way'' [(''id'', ''1''), (''lon'', ''abc'')] []))
   \<and> shape_element float_sample (Element ''way'' [(''id'', ''1''), (''lon'', ''abc'')] []) = Inl ValueError"
proof -
  let ?e = "Element ''way'' [(''id'', ''1''), (''lon'', ''abc'')] []"
  have h: "tag ?e = ''way'' \<or> tag ?e = ''node''" "(''lon'', ''abc'') \<in> set (attrib ?e)"
    "float_sample ''abc'' = None"
    "''created'' \<notin> fst ` set (attrib ?e)" "''pos'' \<notin> fst ` set (attrib ?e)"
    by (simp_all add: float_sample_values)
  from non_numeric_position_fails [of ?e "''lon''" "''abc''" float_sample] h show ?thesis
    by auto
qed

text \<open>
  C9 as stated fails: when an attribute named \<^verbatim>\<open>pos\<close> was stored before \<^verbatim>\<open>lat\<close> is
  reached, \<^verbatim>\<open>node["pos"]\<close> is a string and looking up its \<^verbatim>\<open>insert\<close> raises
  AttributeError before \<^verbatim>\<open>float\<close> is called.
\<close>

theorem colliding_pos_attribute_raises_AttributeError:
  "shape_element float_sample (Element ''node'' [(''pos'', ''x''), (''lat'', ''abc'')] []) = Inl AttributeError"
  by (simp add: run_defs)

subsection \<open>The position\<close>

lemma shape_element_pos:
  assumes "shape_element flt e = Inr (Some d)"
    and "distinct (map fst (attrib e))"
    and "''pos'' \<notin> fst ` set (attrib e)"
    and "\<forall>s \<in> set (getiterator e). tag s = ''tag'' \<longrightarrow> map_of (attrib s) ''k'' \<noteq> Some ''pos''"
  shows "d ''pos'' =
           (if map_of (attrib e) ''lat'' = None \<and> map_of (attrib e) ''lon'' = None then None
            else Some (PList (float_items flt (attrib e) ''lat'' @ float_items flt (attrib e) ''lon'')))"
proof -
  let ?node0 = "[''type'' \<mapsto> PStr (tag e)] :: 'a node"
  from assms(1) obtain node1 where
    a: "for_each (attribute_step flt) ?node0 (attrib e) = Inr node1" and
    s: "for_each sub_elem_step node1 (getiterator e) = Inr d"
    by (rule shape_element_Some)
  have "list_or_absent (?node0 ''pos'')" by simp
  from for_each_attribute_pos [OF a assms(2,3) this]
  have "node1 ''pos'' =
           (if map_of (attrib e) ''lat'' = None \<and> map_of (attrib e) ''lon'' = None then None
            else Some (PList (float_items flt (attrib e) ''lat'' @ float_items flt (attrib e) ''lon'')))"
    by (simp add: pos_items_def)
  moreover from for_each_sub_elem_frame [OF s assms(4)] have "d ''pos'' = node1 ''pos''"
    by simp
  ultimately show ?thesis by simp
qed

lemma shape_element_converts:
  assumes "shape_element flt e = Inr (Some d)"
    and "map_of (attrib e) a = Some v" and "a = ''lat'' \<or> a = ''lon''"
  shows "\<exists>x. flt v = Some x"
proof (rule ccontr)
  assume "\<nexists>x. flt v = Some x"
  then have none: "flt v = None" by simp
  from assms(1) obtain node1 where
    a: "for_each (attribute_step flt) [''type'' \<mapsto> PStr (tag e)] (attrib e) = Inr node1"
    by (rule shape_element_Some)
  from assms(2) have "(a, v) \<in> set (attrib e)" by (rule map_of_SomeD)
  moreover from assms(3) have "a \<in> set POSITION" by (auto simp: POSITION_def)
  ultimately show False
    using attribute_loop_fails [of a v "attrib e" flt "[''type'' \<mapsto> PStr (tag e)]"] none a
    by auto
qed

text \<open>
  C2, as amended. For an accepted element with distinct attribute names that carries
  \<^verbatim>\<open>lat\<close> and \<^verbatim>\<open>lon\<close> with numeric values, has no attribute named \<^verbatim>\<open>pos\<close> and no
  \<^verbatim>\<open>tag\<close> sub-element whose key is \<^verbatim>\<open>pos\<close>, the \<^verbatim>\<open>pos\<close> field of the returned
  dictionary is the list of the float of \<^verbatim>\<open>lat\<close> followed by the float of \<^verbatim>\<open>lon\<close>,
  in whatever order the attributes are iterated.
\<close>

theorem pos_is_lat_then_lon:
  assumes "shape_element flt e = Inr (Some d)"
    and "distinct (map fst (attrib e))"
    and "map_of (attrib e) ''lat'' = Some lat" and "map_of (attrib e) ''lon'' = Some lon"
    and "flt lat = Some x" and "flt lon = Some y"
    and "''pos'' \<notin> fst ` set (attrib e)"
    and "\<forall>s \<in> set (getiterator e). tag s = ''tag'' \<longrightarrow> map_of (attrib s) ''k'' \<noteq> Some ''pos''"
  shows "d ''pos'' = Some (PList [AFloat x, AFloat y])"
  using shape_element_pos [OF assms(1,2,7,8)] assms(3-6)
  by (simp add: float_items_def)

theorem pos_is_lat_then_lon_witness:
  "shape_element float_sample node_example =
     Inr (Some [''type'' \<mapsto> PStr ''node'',
                ''pos'' \<mapsto> PList [AFloat (83 / 2), AFloat (- (349 / 4))],
                ''id'' \<mapsto> PStr ''261114295'',
                ''created'' \<mapsto> PDict [''uid'' \<mapsto> ''451048''],
                ''address'' \<mapsto> PDict [''housenumber'' \<mapsto> ''5158''],
                ''amenity'' \<mapsto> PStr ''pharmacy''])
   \<and> distinct (map fst (attrib node_example))
   \<and> map fst (attrib node_example) = [''lon'', ''lat'', ''id'', ''uid'']
   \<and> map_of (attrib node_example) ''lat'' = Some ''41.5''
   \<and> map_of (attrib node_example) ''lon'' = Some ''-87.25''
   \<and> float_sample ''41.5'' = Some (83 / 2)
   \<and> float_sample ''-87.25'' = Some (- (349 / 4))
   \<and> ''pos'' \<notin> fst ` set (attrib node_example)
   \<and> list_all (\<lambda>s. tag s = ''tag'' \<longrightarrow> map_of (attrib s) ''k'' \<noteq> Some ''pos'')
        (getiterator node_example)
   \<and> ([''type'' \<mapsto> PStr ''node'',
        ''pos'' \<mapsto> PList [AFloat (83 / 2), AFloat (- (349 / 4))],
        ''id'' \<mapsto> PStr ''261114295'',
        ''created'' \<mapsto> PDict [''uid'' \<mapsto> ''451048''],
        ''address'' \<mapsto> PDict [''housenumber'' \<mapsto> ''5158''],
        ''amenity'' \<mapsto> PStr ''pharmacy''] :: real node) ''pos''
       = Some (PList [AFloat (83 / 2), AFloat (- (349 / 4))])"
proof -
  note run = node_example_shaped
  have h: "distinct (map fst (attrib node_example))"
    "map fst (attrib node_example) = [''lon'', ''lat'', ''id'', ''uid'']"
    "map_of (attrib node_example) ''lat'' = Some ''41.5''"
    "map_of (attrib node_example) ''lon'' = Some ''-87.25''"
    "''pos'' \<notin> fst ` set (attrib node_example)"
    by (simp_all add: node_example_def)
  have k: "\<forall>s \<in> set (getiterator node_example).
             tag s = ''tag'' \<longrightarrow> map_of (attrib s) ''k'' \<noteq> Some ''pos''"
    by (simp add: node_example_def)
  from pos_is_lat_then_lon [OF run h(1,3,4) float_sample_values(1,2) h(5) k]
    run h k float_sample_values(1,2)
  show ?thesis unfolding list_all_iff by blast
qed

text \<open>
  C2 as stated fails: a \<^verbatim>\<open>tag\<close> child with the key \<^verbatim>\<open>pos\<close> is stored by
  \<^verbatim>\<open>node[k_val] = v_val\<close> and replaces the list of coordinates by its string.
\<close>

theorem pos_overwritten_by_tag_child:
  "returned_field
     (shape_element float_sample
        (Element ''node'' [(''lat'', ''41.5''), (''lon'', ''-87.25'')]
           [Element ''tag'' [(''k'', ''pos''), (''v'', ''x'')] []]))
     ''pos'' = Some (PStr ''x'')"
  by (simp add: run_defs key_defs)

text \<open>
  C7, as amended. For an accepted element with distinct attribute names, no attribute named
  \<^verbatim>\<open>pos\<close> and no \<^verbatim>\<open>tag\<close> sub-element whose key is \<^verbatim>\<open>pos\<close>: the returned dictionary
  has a \<^verbatim>\<open>pos\<close> field exactly when the element has a \<^verbatim>\<open>lat\<close> or a \<^verbatim>\<open>lon\<close> attribute,
  and the field is then the list of the float of \<^verbatim>\<open>lat\<close>, if the element has one,
  followed by the float of \<^verbatim>\<open>lon\<close>, if it has one: two floats in the order lat, lon when
  both attributes are present, one float when only one is.
\<close>

theorem pos_holds_the_converted_coordinates:
  assumes "shape_element flt e = Inr (Some d)"
    and "distinct (map fst (attrib e))"
    and "''pos'' \<notin> fst ` set (attrib e)"
    and "\<forall>s \<in> set (getiterator e). tag s = ''tag'' \<longrightarrow> map_of (attrib s) ''k'' \<noteq> Some ''pos''"
  shows "d ''pos'' =
           (if map_of (attrib e) ''lat'' = None \<and> map_of (attrib e) ''lon'' = None then None
            else Some (PList (float_items flt (attrib e) ''lat'' @ float_items flt (attrib e) ''lon''))) \<and>
         length (float_items flt (attrib e) ''lat'') = (if map_of (attrib e) ''lat'' = None then 0 else 1) \<and>
         length (float_items flt (attrib e) ''lon'') = (if map_of (attrib e) ''lon'' = None then 0 else 1)"
proof -
  have len: "length (float_items flt (attrib e) a) = (if map_of (attrib e) a = None then 0 else 1)"
    if "a = ''lat'' \<or> a = ''lon''" for a
  proof (cases "map_of (attrib e) a")
    case None
    then show ?thesis by (simp add: float_items_def)
  next
    case (Some v)
    from shape_element_converts [OF assms(1) Some that] obtain x where "flt v = Some x" ..
    with Some show ?thesis by (simp add: float_items_def)
  qed
  from shape_element_pos [OF assms] len [of "''lat''"] len [of "''lon''"] show ?thesis
    by simp
qed

theorem pos_holds_the_converted_coordinates_witness:
  "shape_element float_sample (Element ''node'' [(''id'', ''7''), (''lon'', ''-87.25'')] []) =
     Inr (Some [''type'' \<mapsto> PStr ''node'', ''id'' \<mapsto> PStr ''7'',
                ''pos'' \<mapsto> PList [AFloat (- (349 / 4))]])
   \<and> distinct (map fst (attrib (Element ''node'' [(''id'', ''7''), (''lon'', ''-87.25'')] [])))
   \<and> ''pos'' \<notin> fst ` set (attrib (Element ''node'' [(''id'', ''7''), (''lon'', ''-87.25'')] []))
   \<and> ([''type'' \<mapsto> PStr ''node'', ''id'' \<mapsto> PStr ''7'',
        ''pos'' \<mapsto> PList [AFloat (- (349 / 4))]] :: real node) ''pos''
       = Some (PList (float_items float_sample [(''id'', ''7''), (''lon'', ''-87.25'')] ''lat'' @
                      float_items float_sample [(''id'', ''7''), (''lon'', ''-87.25'')] ''lon''))
   \<and> length (float_items float_sample [(''id'', ''7''), (''lon'', ''-87.25'')] ''lat'') = 0
   \<and> length (float_items float_sample [(''id'', ''7''), (''lon'', ''-87.25'')] ''lon'') = 1"
proof -
  let ?e = "Element ''node'' [(''id'', ''7''), (''lon'', ''-87.25'')] []"
  have run: "shape_element float_sample ?e =
     Inr (Some [''type'' \<mapsto> PStr ''node'', ''id'' \<mapsto> PStr ''7'',
                ''pos'' \<mapsto> PList [AFloat (- (349 / 4))]])"
    by (simp add: run_defs)
  have h: "distinct (map fst (attrib ?e))" "''pos'' \<notin> fst ` set (attrib ?e)"
    by simp_all
  have k: "\<forall>s \<in> set (getiterator ?e). tag s = ''tag'' \<longrightarrow> map_of (attrib s) ''k'' \<noteq> Some ''pos''"
    by simp
  from pos_holds_the_converted_coordinates [OF run h k] run h show ?thesis
    by simp
qed

text \<open>
  C7 as stated fails: a node with \<^verbatim>\<open>lat\<close> and without \<^verbatim>\<open>lon\<close> is returned with a
  \<^verbatim>\<open>pos\<close> of one element.
\<close>

theorem pos_has_one_element_without_lon:
  "returned_field (shape_element float_sample (Element ''node'' [(''lat'', ''41.5'')] [])) ''pos''
     = Some (PList [AFloat (83 / 2)])"
  by (simp add: run_defs)

subsection \<open>Node references\<close>

lemma shape_element_node_refs:
  assumes "shape_element flt e = Inr (Some d)"
    and "''node_refs'' \<notin> fst ` set (attrib e)"
    and "\<forall>s \<in> set (getiterator e). tag s = ''tag'' \<longrightarrow> map_of (attrib s) ''k'' \<noteq> Some ''node_refs''"
  shows "d ''node_refs'' = (if nd_refs e = [] then None else Some (PList (map AStr (nd_refs e))))"
proof -
  from assms(1) obtain node1 where
    a: "for_each (attribute_step flt) [''type'' \<mapsto> PStr (tag e)] (attrib e) = Inr node1" and
    s: "for_each sub_elem_step node1 (getiterator e) = Inr d"
    by (rule shape_element_Some)
  from for_each_attribute_frame [OF a assms(2)] have none: "node1 ''node_refs'' = None"
    by simp
  then have "list_or_absent (node1 ''node_refs'')" by simp
  from for_each_sub_elem_node_refs [OF s assms(3) this] none show ?thesis
    by (simp add: nd_refs_def node_refs_items_def)
qed

text \<open>
  C5, as amended. For an accepted element that has no attribute named \<^verbatim>\<open>node_refs\<close> and
  no \<^verbatim>\<open>tag\<close> sub-element whose key is \<^verbatim>\<open>node_refs\<close>, the \<^verbatim>\<open>node_refs\<close> field of the
  returned dictionary is the list of the \<^verbatim>\<open>ref\<close> strings of its \<^verbatim>\<open>nd\<close> sub-elements
  in document order, duplicates kept, and the field is absent when there is none.
\<close>

theorem node_refs_are_the_nd_refs_in_order:
  assumes "shape_element flt e = Inr (Some d)"
    and "''node_refs'' \<notin> fst ` set (attrib e)"
    and "\<forall>s \<in> set (getiterator e). tag s = ''tag'' \<longrightarrow> map_of (attrib s) ''k'' \<noteq> Some ''node_refs''"
  shows "d ''node_refs'' = (if nd_refs e = [] then None else Some (PList (map AStr (nd_refs e))))"
  using assms by (rule shape_element_node_refs)

theorem node_refs_are_the_nd_refs_in_order_witness:
  "shape_element float_sample
     (Element ''way'' [(''id'', ''4'')]
        [Element ''nd'' [(''ref'', ''r1'')] [], Element ''nd'' [(''ref'', ''r2'')] [],
         Element ''nd'' [(''ref'', ''r1'')] []]) =
     Inr (Some [''type'' \<mapsto> PStr ''way'', ''id'' \<mapsto> PStr ''4'',
                ''node_refs'' \<mapsto> PList [AStr ''r1'', AStr ''r2'', AStr ''r1'']])
   \<and> ''node_refs'' \<notin> fst ` set (attrib (Element ''way'' [(''id'', ''4'')]
        [Element ''nd'' [(''ref'', ''r1'')] [], Element ''nd'' [(''ref'', ''r2'')] [],
         Element ''nd'' [(''ref'', ''r1'')] []]))
   \<and> nd_refs (Element ''way'' [(''id'', ''4'')]
        [Element ''nd'' [(''ref'', ''r1'')] [], Element ''nd'' [(''ref'', ''r2'')] [],
         Element ''nd'' [(''ref'', ''r1'')] []]) = [''r1'', ''r2'', ''r1'']
   \<and> ([''type'' \<mapsto> PStr ''way'', ''id'' \<mapsto> PStr ''4'',
        ''node_refs'' \<mapsto> PList [AStr ''r1'', AStr ''r2'', AStr ''r1'']] :: real node) ''node_refs''
       = Some (PList (map AStr [''r1'', ''r2'', ''r1'']))"
proof -
  let ?e = "Element ''way'' [(''id'', ''4'')]
        [Element ''nd'' [(''ref'', ''r1'')] [], Element ''nd'' [(''ref'', ''r2'')] [],
         Element ''nd'' [(''ref'', ''r1'')] []]"
  have run: "shape_element float_sample ?e =
     Inr (Some [''type'' \<mapsto> PStr ''way'', ''id'' \<mapsto> PStr ''4'',
                ''node_refs'' \<mapsto> PList [AStr ''r1'', AStr ''r2'', AStr ''r1'']])"
    by (simp add: run_defs)
  have h: "''node_refs'' \<notin> fst ` set (attrib ?e)" by simp
  have k: "\<forall>s \<in> set (getiterator ?e). tag s = ''tag'' \<longrightarrow> map_of (attrib s) ''k'' \<noteq> Some ''node_refs''"
    by simp
  have r: "nd_refs ?e = [''r1'', ''r2'', ''r1'']" by (simp add: nd_refs_def ref_of_def)
  from node_refs_are_the_nd_refs_in_order [OF run h k] run h r show ?thesis
    by simp
qed

text \<open>
  C5 as stated fails: a \<^verbatim>\<open>tag\<close> child with the key \<^verbatim>\<open>node_refs\<close> that follows the
  \<^verbatim>\<open>nd\<close> children replaces the list of references by its string.
\<close>

theorem node_refs_overwritten_by_tag_child:
  "returned_field
     (shape_element float_sample
        (Element ''way'' []
           [Element ''nd'' [(''ref'', ''r1'')] [],
            Element ''tag'' [(''k'', ''node_refs''), (''v'', ''x'')] []]))
     ''node_refs'' = Some (PStr ''x'')"
  by (simp add: run_defs key_defs)

text \<open>
  C8, as amended. For an accepted element whose tag is \<^verbatim>\<open>node\<close> and that has no
  \<^verbatim>\<open>nd\<close> sub-element, no attribute named \<^verbatim>\<open>node_refs\<close> and no \<^verbatim>\<open>tag\<close> sub-element
  whose key is \<^verbatim>\<open>node_refs\<close>, the returned dictionary has no \<^verbatim>\<open>node_refs\<close> key.
\<close>

theorem node_without_nd_has_no_node_refs:
  assumes "shape_element flt e = Inr (Some d)"
    and "tag e = ''node''"
    and "\<forall>s \<in> set (getiterator e). tag s \<noteq> ''nd''"
    and "''node_refs'' \<notin> fst ` set (attrib e)"
    and "\<forall>s \<in> set (getiterator e). tag s = ''tag'' \<longrightarrow> map_of (attrib s) ''k'' \<noteq> Some ''node_refs''"
  shows "d ''node_refs'' = None"
proof -
  from assms(3) have "nd_refs e = []"
    by (simp add: nd_refs_def ref_of_def)
  with shape_element_node_refs [OF assms(1,4,5)] show ?thesis by simp
qed

theorem node_without_nd_has_no_node_refs_witness:
  "shape_element float_sample node_example =
     Inr (Some [''type'' \<mapsto> PStr ''node'',
                ''pos'' \<mapsto> PList [AFloat (83 / 2), AFloat (- (349 / 4))],
                ''id'' \<mapsto> PStr ''261114295'',
                ''created'' \<mapsto> PDict [''uid'' \<mapsto> ''451048''],
                ''address'' \<mapsto> PDict [''housenumber'' \<mapsto> ''5158''],
                ''amenity'' \<mapsto> PStr ''pharmacy''])
   \<and> tag node_example = ''node''
   \<and> list_all (\<lambda>s. tag s \<noteq> ''nd'') (getiterator node_example)
   \<and> ''node_refs'' \<notin> fst ` set (attrib node_example)
   \<and> list_all (\<lambda>s. tag s = ''tag'' \<longrightarrow> map_of (attrib s) ''k'' \<noteq> Some ''node_refs'')
        (getiterator node_example)
   \<and> ([''type'' \<mapsto> PStr ''node'',
        ''pos'' \<mapsto> PList [AFloat (83 / 2), AFloat (- (349 / 4))],
        ''id'' \<mapsto> PStr ''261114295'',
        ''created'' \<mapsto> PDict [''uid'' \<mapsto> ''451048''],
        ''address'' \<mapsto> PDict [''housenumber'' \<mapsto> ''5158''],
        ''amenity'' \<mapsto> PStr ''pharmacy''] :: real node) ''node_refs'' = None"
proof -
  note run = node_example_shaped
  have t: "tag node_example = ''node''" by (simp add: node_example_def)
  have n: "\<forall>s \<in> set (getiterator node_example). tag s \<noteq> ''nd''"
    by (simp add: node_example_def)
  have h: "''node_refs'' \<notin> fst ` set (attrib node_example)"
    by (simp add: node_example_def)
  have k: "\<forall>s \<in> set (getiterator node_example).
             tag s = ''tag'' \<longrightarrow> map_of (attrib s) ''k'' \<noteq> Some ''node_refs''"
    by (simp add: node_example_def)
  from node_without_nd_has_no_node_refs [OF run t n h k] run t n h k show ?thesis
    unfolding list_all_iff by blast
qed

text \<open>
  C8 as stated fails: \<^verbatim>\<open>transform_sub_elem_attributes\<close> does not look at the tag of the
  element, so a node with an \<^verbatim>\<open>nd\<close> child is returned with \<^verbatim>\<open>node_refs\<close>.
\<close>

theorem node_with_nd_child_gets_node_refs:
  "returned_field
     (shape_element float_sample (Element ''node'' [(''id'', ''1'')] [Element ''nd'' [(''ref'', ''r1'')] []]))
     ''node_refs'' = Some (PList [AStr ''r1''])"
  by (simp add: run_defs)

subsection \<open>Tag children\<close>

lemma hd_str_split: "hd (str_split sep s) = takeWhile (\<lambda>c. c \<noteq> sep) s"
  by (induction s) (auto simp: str_split_not_Nil split: list.splits)

lemma addr_split_second:
  assumes "startswith k ''addr:''"
  shows "str_split CHR '':'' k ! 1 = takeWhile (\<lambda>c. c \<noteq> CHR '':'') (drop 5 k)"
proof -
  from addr_split [OF assms] obtain r where
    r: "k = ''addr:'' @ r" "str_split CHR '':'' k = ''addr'' # str_split CHR '':'' r"
    by blast
  have "str_split CHR '':'' k ! 1 = hd (str_split CHR '':'' r)"
    using r(2) str_split_not_Nil [of "CHR '':''" r] by (simp add: hd_conv_nth)
  also have "\<dots> = takeWhile (\<lambda>c. c \<noteq> CHR '':'') r" by (rule hd_str_split)
  also have "r = drop 5 k" using r(1) by simp
  finally show ?thesis .
qed

lemma sub_elem_step_children:
  "sub_elem_step node (Element t a cs) = sub_elem_step node (Element t a cs')"
  unfolding sub_elem_step_def transform_tag_elem_def transform_nd_tag_def element.sel
  by (rule refl)

lemma rejected_keys:
  "is_compound_street_address ''addr:street:name''"
  "is_compound_street_address ''addr:street:prefix''"
  "is_compound_street_address ''addr:street:type''"
  "\<not> is_compound_street_address ''addr:street''"
  "\<not> contains_bad_char ''addr:street''"
  "startswith ''addr:street'' ''addr:''"
  by (simp_all add: key_defs)

lemma addr_street_split: "str_split CHR '':'' ''addr:street'' = [''addr'', ''street'']"
  by simp

lemma addr_street_stored:
  assumes "map_of (attrib s) ''k'' = Some ''addr:street''" and "map_of (attrib s) ''v'' = Some w"
    and "dict_or_absent (node ''address'')"
  shows "transform_tag_elem node s =
           Inr (node(''address'' \<mapsto>
             PDict ((case node ''address'' of Some (PDict m) \<Rightarrow> m | _ \<Rightarrow> Map.empty)
                      (''street'' \<mapsto> w))))"
proof -
  from assms(3) consider "node ''address'' = None" | m where "node ''address'' = Some (PDict m)"
    by (auto simp: dict_or_absent_iff)
  then show ?thesis
  proof cases
    case 1
    with assms(1,2) show ?thesis
      by (simp add: transform_tag_elem_def rejected_keys addr_street_split)
  next
    case 2
    with assms(1,2) show ?thesis
      by (simp add: transform_tag_elem_def rejected_keys addr_street_split)
  qed
qed

text \<open>
  C3, as amended. A \<^verbatim>\<open>tag\<close> child with \<^verbatim>\<open>k\<close> and \<^verbatim>\<open>v\<close> whose key contains a
  character of \<^verbatim>\<open>PROBLEM_CHARS\<close>, or splits on \<^verbatim>\<open>:\<close> into more than two segments the
  second of which is \<^verbatim>\<open>street\<close>, leaves the dictionary unchanged: \<^verbatim>\<open>transform_tag_elem\<close>
  and the loop body return the dictionary they were given, the loop over the sub-elements
  gives the same result with the child as without it, and so does \<^verbatim>\<open>shape_element\<close> for an
  element with such a childless child. The keys \<^verbatim>\<open>addr:street:name\<close>,
  \<^verbatim>\<open>addr:street:prefix\<close> and \<^verbatim>\<open>addr:street:type\<close> are dropped in this way. The key
  \<^verbatim>\<open>addr:street\<close> passes both tests, and a \<^verbatim>\<open>tag\<close> child with this key is kept when the
  \<^verbatim>\<open>address\<close> field of the dictionary is absent or a nested dictionary:
  \<^verbatim>\<open>transform_tag_elem\<close> and the loop body store its value under \<^verbatim>\<open>street\<close> in the nested
  dictionary.
\<close>

theorem rejected_tag_is_dropped:
  fixes node :: "'f node" and flt :: "string \<Rightarrow> 'f option"
  assumes "tag c = ''tag''"
    and "map_of (attrib c) ''k'' = Some k" and "map_of (attrib c) ''v'' = Some v"
    and "contains_bad_char k \<or> is_compound_street_address k"
  shows "transform_tag_elem node c = Inr node \<and>
         sub_elem_step node c = Inr node \<and>
         for_each sub_elem_step node (xs @ c # ys) = for_each sub_elem_step node (xs @ ys) \<and>
         (children c = [] \<longrightarrow>
            shape_element flt (Element t a (cs1 @ c # cs2)) = shape_element flt (Element t a (cs1 @ cs2))) \<and>
         (contains_bad_char k \<longleftrightarrow> set k \<inter> set PROBLEM_CHARS \<noteq> {}) \<and>
         (is_compound_street_address k \<longleftrightarrow>
            2 < length (str_split CHR '':'' k) \<and> str_split CHR '':'' k ! 1 = ''street'') \<and>
         is_compound_street_address ''addr:street:name'' \<and>
         is_compound_street_address ''addr:street:prefix'' \<and>
         is_compound_street_address ''addr:street:type'' \<and>
         \<not> contains_bad_char ''addr:street'' \<and> \<not> is_compound_street_address ''addr:street'' \<and>
         (tag s = ''tag'' \<and> map_of (attrib s) ''k'' = Some ''addr:street'' \<and>
          map_of (attrib s) ''v'' = Some w \<and> dict_or_absent (node ''address'') \<longrightarrow>
            transform_tag_elem node s =
              Inr (node(''address'' \<mapsto>
                PDict ((case node ''address'' of Some (PDict m) \<Rightarrow> m | _ \<Rightarrow> Map.empty)
                         (''street'' \<mapsto> w)))) \<and>
            sub_elem_step node s =
              Inr (node(''address'' \<mapsto>
                PDict ((case node ''address'' of Some (PDict m) \<Rightarrow> m | _ \<Rightarrow> Map.empty)
                         (''street'' \<mapsto> w)))))"
proof -
  have 1: "transform_tag_elem n c = Inr n" for n :: "'f node"
    using assms(2-4) by (auto simp: transform_tag_elem_def)
  have 2: "sub_elem_step n c = Inr n" for n :: "'f node"
    using assms(1) 1 by (simp add: sub_elem_step_def)
  have 3: "for_each sub_elem_step n (xs @ c # ys) = for_each sub_elem_step n (xs @ ys)"
    for n :: "'f node" and xs ys
    by (simp add: for_each_append 2 split: sum.splits)
  have 4: "shape_element flt (Element t a (cs1 @ c # cs2)) = shape_element flt (Element t a (cs1 @ cs2))"
    if leaf: "children c = []"
  proof -
    from leaf have it: "getiterator c = [c]" by (cases c) simp
    have "for_each sub_elem_step n (getiterator (Element t a (cs1 @ c # cs2))) =
          for_each sub_elem_step n (getiterator (Element t a (cs1 @ cs2)))" for n :: "'f node"
      using 3 [of _ "concat (map getiterator cs1)" "concat (map getiterator cs2)"]
        sub_elem_step_children [of n t a "cs1 @ c # cs2" "cs1 @ cs2"]
      by (simp add: it split: sum.splits)
    then have sub: "transform_sub_elem_attributes n (Element t a (cs1 @ c # cs2)) =
          transform_sub_elem_attributes n (Element t a (cs1 @ cs2))" for n :: "'f node"
      by (simp only: transform_sub_elem_attributes_def)
    show ?thesis
      unfolding shape_element_def transform_element_attributes_def sub element.sel
      by (rule refl)
  qed
  have 5: "contains_bad_char k \<longleftrightarrow> set k \<inter> set PROBLEM_CHARS \<noteq> {}"
    by (auto simp: contains_bad_char_def list_ex_iff)
  have 6: "is_compound_street_address k \<longleftrightarrow>
            2 < length (str_split CHR '':'' k) \<and> str_split CHR '':'' k ! 1 = ''street''"
    by (simp add: is_compound_street_address_def Let_def)
  have 7: "transform_tag_elem node s =
              Inr (node(''address'' \<mapsto>
                PDict ((case node ''address'' of Some (PDict m) \<Rightarrow> m | _ \<Rightarrow> Map.empty)
                         (''street'' \<mapsto> w)))) \<and>
            sub_elem_step node s =
              Inr (node(''address'' \<mapsto>
                PDict ((case node ''address'' of Some (PDict m) \<Rightarrow> m | _ \<Rightarrow> Map.empty)
                         (''street'' \<mapsto> w))))"
    if kept: "tag s = ''tag'' \<and> map_of (attrib s) ''k'' = Some ''addr:street'' \<and>
          map_of (attrib s) ''v'' = Some w \<and> dict_or_absent (node ''address'')"
  proof -
    from kept have stored: "transform_tag_elem node s =
              Inr (node(''address'' \<mapsto>
                PDict ((case node ''address'' of Some (PDict m) \<Rightarrow> m | _ \<Rightarrow> Map.empty)
                         (''street'' \<mapsto> w))))"
      by (simp add: addr_street_stored)
    moreover from kept have "sub_elem_step node s = transform_tag_elem node s"
      by (simp add: sub_elem_step_def split: sum.splits)
    ultimately show ?thesis by simp
  qed
  from 1 2 3 4 5 6 rejected_keys(1-5) show ?thesis
    using 7 by (intro conjI impI) blast+
qed

theorem rejected_tag_is_dropped_witness:
  "tag (Element ''tag'' [(''k'', ''addr:street:name''), (''v'', ''Lincoln'')] []) = ''tag''
   \<and> map_of (attrib (Element ''tag'' [(''k'', ''addr:street:name''), (''v'', ''Lincoln'')] [])) ''k''
       = Some ''addr:street:name''
   \<and> map_of (attrib (Element ''tag'' [(''k'', ''addr:street:name''), (''v'', ''Lincoln'')] [])) ''v''
       = Some ''Lincoln''
   \<and> is_compound_street_address ''addr:street:name''
   \<and> transform_tag_elem ([''type'' \<mapsto> PStr ''node''] :: real node)
         (Element ''tag'' [(''k'', ''addr:street:name''), (''v'', ''Lincoln'')] [])
       = Inr [''type'' \<mapsto> PStr ''node'']
   \<and> shape_element float_sample
         (Element ''node'' [(''id'', ''1'')]
            ([] @ Element ''tag'' [(''k'', ''addr:street:name''), (''v'', ''Lincoln'')] [] #
               [Element ''tag'' [(''k'', ''amenity''), (''v'', ''pharmacy'')] []]))
       = shape_element float_sample
         (Element ''node'' [(''id'', ''1'')]
            ([] @ [Element ''tag'' [(''k'', ''amenity''), (''v'', ''pharmacy'')] []]))
   \<and> tag (Element ''tag'' [(''k'', ''addr:street''), (''v'', ''North Lincoln Avenue'')] []) = ''tag''
   \<and> map_of (attrib (Element ''tag'' [(''k'', ''addr:street''), (''v'', ''North Lincoln Avenue'')] [])) ''k''
       = Some ''addr:street''
   \<and> map_of (attrib (Element ''tag'' [(''k'', ''addr:street''), (''v'', ''North Lincoln Avenue'')] [])) ''v''
       = Some ''North Lincoln Avenue''
   \<and> dict_or_absent (([''type'' \<mapsto> PStr ''node''] :: real node) ''address'')
   \<and> sub_elem_step ([''type'' \<mapsto> PStr ''node''] :: real node)
         (Element ''tag'' [(''k'', ''addr:street''), (''v'', ''North Lincoln Avenue'')] [])
       = Inr [''type'' \<mapsto> PStr ''node'',
              ''address'' \<mapsto> PDict [''street'' \<mapsto> ''North Lincoln Avenue'']]"
proof -
  let ?c = "Element ''tag'' [(''k'', ''addr:street:name''), (''v'', ''Lincoln'')] []"
  let ?s = "Element ''tag'' [(''k'', ''addr:street''), (''v'', ''North Lincoln Avenue'')] []"
  let ?n = "[''type'' \<mapsto> PStr ''node''] :: real node"
  have h: "tag ?c = ''tag''" "map_of (attrib ?c) ''k'' = Some ''addr:street:name''"
    "map_of (attrib ?c) ''v'' = Some ''Lincoln''"
    "contains_bad_char ''addr:street:name'' \<or> is_compound_street_address ''addr:street:name''"
    "children ?c = []"
    by (simp_all add: rejected_keys)
  have g: "tag ?s = ''tag''" "map_of (attrib ?s) ''k'' = Some ''addr:street''"
    "map_of (attrib ?s) ''v'' = Some ''North Lincoln Avenue''"
    "dict_or_absent (?n ''address'')"
    by simp_all
  from rejected_tag_is_dropped [OF h(1-4), of ?n "[]" "[]"
      float_sample "''node''" "[(''id'', ''1'')]" "[]"
      "[Element ''tag'' [(''k'', ''amenity''), (''v'', ''pharmacy'')] []]" ?s "''North Lincoln Avenue''"]
    h g rejected_keys(1)
  show ?thesis by simp
qed

text \<open>
  C3 as stated fails: \<^verbatim>\<open>addr:street\<close> is not kept after an attribute named
  \<^verbatim>\<open>address\<close>, whose string is then the value of the field, and
  \<^verbatim>\<open>node["address"][key] = v_val\<close> raises TypeError.
\<close>

theorem addr_street_after_address_attribute_raises_TypeError:
  "shape_element float_sample
     (Element ''node'' [(''address'', ''1 Main St'')]
        [Element ''tag'' [(''k'', ''addr:street''), (''v'', ''North Lincoln Avenue'')] []])
     = Inl TypeError"
  by (simp add: run_defs rejected_keys addr_street_split)

text \<open>
  C4, as amended. For a \<^verbatim>\<open>tag\<close> child that is not dropped and whose key starts with
  \<^verbatim>\<open>addr:\<close>, when the \<^verbatim>\<open>address\<close> field of the dictionary is absent or a nested
  dictionary, \<^verbatim>\<open>transform_tag_elem\<close> stores the value, unchanged, in the nested dictionary
  (created empty when absent) under the second segment of the key split on \<^verbatim>\<open>:\<close>. That
  segment exists, and it is the text between the first \<^verbatim>\<open>:\<close> and the next one, not the
  whole remainder of the key.
\<close>

theorem addr_tag_is_stored_under_its_second_segment:
  assumes "map_of (attrib c) ''k'' = Some k" and "map_of (attrib c) ''v'' = Some v"
    and "\<not> contains_bad_char k" and "\<not> is_compound_street_address k"
    and "startswith k ''addr:''"
    and "dict_or_absent (node ''address'')"
  shows "transform_tag_elem node c =
           Inr (node(''address'' \<mapsto>
             PDict ((case node ''address'' of Some (PDict m) \<Rightarrow> m | _ \<Rightarrow> Map.empty)
                      (str_split CHR '':'' k ! 1 \<mapsto> v)))) \<and>
         1 < length (str_split CHR '':'' k) \<and>
         str_split CHR '':'' k ! 1 = takeWhile (\<lambda>ch. ch \<noteq> CHR '':'') (drop 5 k)"
proof -
  from assms(5) have len: "1 < length (str_split CHR '':'' k)"
    by (rule addr_split_length)
  from assms(6) consider "node ''address'' = None" | m where "node ''address'' = Some (PDict m)"
    by (auto simp: dict_or_absent_iff)
  then have "transform_tag_elem node c =
           Inr (node(''address'' \<mapsto>
             PDict ((case node ''address'' of Some (PDict m) \<Rightarrow> m | _ \<Rightarrow> Map.empty)
                      (str_split CHR '':'' k ! 1 \<mapsto> v))))"
  proof cases
    case 1
    with assms(1-5) len show ?thesis by (simp add: transform_tag_elem_def)
  next
    case 2
    with assms(1-5) len show ?thesis by (simp add: transform_tag_elem_def)
  qed
  with len addr_split_second [OF assms(5)] show ?thesis by simp
qed

lemma addr_city_zone:
  "\<not> contains_bad_char ''addr:city:zone''"
  "\<not> is_compound_street_address ''addr:city:zone''"
  "startswith ''addr:city:zone'' ''addr:''"
  "str_split CHR '':'' ''addr:city:zone'' ! 1 = ''city''"
  by (simp_all add: key_defs)

theorem addr_tag_is_stored_under_its_second_segment_witness:
  "map_of (attrib (Element ''tag'' [(''k'', ''addr:city:zone''), (''v'', ''Chicago'')] [])) ''k''
       = Some ''addr:city:zone''
   \<and> map_of (attrib (Element ''tag'' [(''k'', ''addr:city:zone''), (''v'', ''Chicago'')] [])) ''v''
       = Some ''Chicago''
   \<and> \<not> contains_bad_char ''addr:city:zone''
   \<and> \<not> is_compound_street_address ''addr:city:zone''
   \<and> startswith ''addr:city:zone'' ''addr:''
   \<and> dict_or_absent (([''type'' \<mapsto> PStr ''node''] :: real node) ''address'')
   \<and> transform_tag_elem ([''type'' \<mapsto> PStr ''node''] :: real node)
         (Element ''tag'' [(''k'', ''addr:city:zone''), (''v'', ''Chicago'')] [])
       = Inr [''type'' \<mapsto> PStr ''node'', ''address'' \<mapsto> PDict [''city'' \<mapsto> ''Chicago'']]"
proof -
  let ?c = "Element ''tag'' [(''k'', ''addr:city:zone''), (''v'', ''Chicago'')] []"
  let ?n = "[''type'' \<mapsto> PStr ''node''] :: real node"
  have h: "map_of (attrib ?c) ''k'' = Some ''addr:city:zone''"
    "map_of (attrib ?c) ''v'' = Some ''Chicago''"
    "dict_or_absent (?n ''address'')"
    by simp_all
  from addr_tag_is_stored_under_its_second_segment
      [of ?c "''addr:city:zone''" "''Chicago''" ?n] h addr_city_zone
  show ?thesis by simp
qed

text \<open>
  C4 as stated fails: after an attribute named \<^verbatim>\<open>address\<close> the field holds a string, and
  \<^verbatim>\<open>node["address"][key] = v_val\<close> raises TypeError.
\<close>

theorem addr_tag_after_address_attribute_raises_TypeError:
  "shape_element float_sample
     (Element ''node'' [(''address'', ''x'')]
        [Element ''tag'' [(''k'', ''addr:city''), (''v'', ''Chicago'')] []])
     = Inl TypeError"
  by (simp add: run_defs key_defs)

end
